theory Spec2Isabelle
  imports Complex_Main
begin

section \<open>Target lookup and imputation (baybe/simulation/lookup.py)\<close>

text \<open>
  The module fills the target columns of a data frame of queries, either by calling a
  function on every row, or by matching every row against a reference table and imputing
  the rows that the table does not hold. The frames are pandas data frames; the model
  keeps of them what the module reads and writes:
  \<^item> a cell is a number or missing (NaN), \<open>None\<close> being the missing value; floats are
    idealised as reals;
  \<^item> a frame is its ordered column labels and its rows, a row giving the cell under
    every label; a cell is only ever read under a label of \<open>columns\<close>, any other read
    is a \<open>KeyError\<close>;
  \<^item> the rows of a frame are addressed by their position (the default index
    \<open>0, 1, ...\<close> of a data frame);
  \<^item> the generator behind \<open>np.random.choice\<close> is an explicit stream of draws;
  \<^item> an exception is a value of \<open>error\<close>; the functions that write into \<open>queries\<close>
    return the exception (if any) together with the frame as it is when they return or
    raise. The \<open>UserWarning\<close> emitted for duplicate table rows is an output nothing
    in the module reads, and is left out.
\<close>

subsection \<open>Frames, targets, errors\<close>

type_synonym cell = "real option"

type_synonym series = "string \<Rightarrow> cell"

record frame =
  columns :: "string list"
  rows :: "series list"

datatype TargetMode = TargetMode_MAX | TargetMode_MIN | TargetMode_MATCH

text \<open>\<open>center\<close> is \<open>target.bounds.center\<close>; the module reads it for \<open>MATCH\<close> targets only.\<close>

record target =
  name :: string
  mode :: TargetMode
  center :: real

text \<open>
  The exceptions of the module and of the pandas and numpy calls it makes.
  \<open>AssertionError\<close> carries its message, \<open>IndexError\<close> the row its message prints.
  \<open>OutsideModel\<close> marks the one input left out: a function lookup on a frame without
  rows, where \<open>DataFrame.apply\<close> does not go row by row.
\<close>

datatype error =
    AssertionError string
  | IndexError "(string \<times> cell) list"
  | KeyError
  | ValueError
  | AttributeError
  | OutsideModel

definition msg_target_count :: string where
  "msg_target_count = ''If you use an analytical function as lookup, make sure the configuration has the right amount of targets specified.''"

definition msg_ignore :: string where
  "msg_ignore = ''Something went wrong for impute_mode 'ignore'. It seems the search space was not correctly reduced before recommendations were generated.''"

type_synonym rng = "nat \<Rightarrow> nat"

text \<open>\<open>np.random.choice(a)\<close>: one draw picks an element; an empty \<open>a\<close> is a \<open>ValueError\<close>.\<close>

definition choice :: "rng \<Rightarrow> nat list \<Rightarrow> error + (nat \<times> rng)" where
  "choice g a =
     (if a = [] then Inl ValueError
      else Inr (a ! (g 0 mod length a), \<lambda>n. g (Suc n)))"

text \<open>Running a fallible step over a list, in order, stopping at the first exception.\<close>

fun collect :: "('a \<Rightarrow> error + 'b) \<Rightarrow> 'a list \<Rightarrow> error + 'b list" where
  "collect f [] = Inr []"
| "collect f (x # xs) =
     (case f x of
        Inl e \<Rightarrow> Inl e
      | Inr y \<Rightarrow> (case collect f xs of Inl e \<Rightarrow> Inl e | Inr ys \<Rightarrow> Inr (y # ys)))"

subsection \<open>Reading and writing frames\<close>

text \<open>\<open>df.loc[:, c]\<close> and \<open>df[c]\<close>: the column under label \<open>c\<close>.\<close>

definition col :: "frame \<Rightarrow> string \<Rightarrow> error + cell list" where
  "col df c =
     (if c \<in> set (columns df) then Inr (map (\<lambda>r. r c) (rows df)) else Inl KeyError)"

text \<open>\<open>df.loc[i, cs].values\<close> for a row label \<open>i\<close> and a list of column labels.\<close>

definition loc_values :: "frame \<Rightarrow> nat \<Rightarrow> string list \<Rightarrow> error + cell list" where
  "loc_values df i cs =
     (if i < length (rows df) \<and> set cs \<subseteq> set (columns df)
      then Inr (map (rows df ! i) cs) else Inl KeyError)"

text \<open>\<open>df.loc[i, c]\<close>: one cell.\<close>

definition loc_cell :: "frame \<Rightarrow> nat \<Rightarrow> string \<Rightarrow> error + cell" where
  "loc_cell df i c =
     (if i < length (rows df) \<and> c \<in> set (columns df)
      then Inr ((rows df ! i) c) else Inl KeyError)"

text \<open>\<open>df[c] = vs\<close>: the column is replaced, or appended when the label is new.\<close>

definition set_column :: "frame \<Rightarrow> string \<Rightarrow> cell list \<Rightarrow> frame" where
  "set_column df c vs =
     \<lparr>columns = (if c \<in> set (columns df) then columns df else columns df @ [c]),
      rows = map (\<lambda>(r, v). r(c := v)) (zip (rows df) vs)\<rparr>"

text \<open>
  \<open>df.loc[:, cs] = vals\<close> for a two-dimensional array with one row per row of the frame
  and one column per label of \<open>cs\<close>. The assignment has two steps. First the frame is
  enlarged: its columns become the union of its labels and \<open>cs\<close>, a label taken as often
  as it occurs in \<open>cs\<close> when that is more often than in the frame; the cells of a label
  that is new are missing. Then the cells are assigned, label by label in the order of
  \<open>cs\<close>. When a label occurs twice in \<open>cs\<close> the second step raises a \<open>ValueError\<close> (the
  labels then select more columns than the array has), and the frame stays enlarged.
  The frames passed to the module are taken to have pairwise distinct column labels; a
  repeated label only arises from that failed assignment.
\<close>

definition set_row :: "string list \<Rightarrow> cell list \<Rightarrow> series \<Rightarrow> series" where
  "set_row cs vs r = fold (\<lambda>(c, v) r'. r'(c := v)) (zip cs vs) r"

definition add_columns :: "frame \<Rightarrow> string list \<Rightarrow> frame" where
  "add_columns df cs =
     \<lparr>columns = columns df @
        concat (map (\<lambda>c. replicate (count_list cs c - count_list (columns df) c) c) (remdups cs)),
      rows = map (\<lambda>r c. if c \<in> set cs \<and> c \<notin> set (columns df) then None else r c) (rows df)\<rparr>"

definition set_columns :: "frame \<Rightarrow> string list \<Rightarrow> cell list list \<Rightarrow> error option \<times> frame" where
  "set_columns df cs vals =
     (let df' = add_columns df cs in
      if distinct cs
      then (None, df'\<lparr>rows := map (\<lambda>(r, vs). set_row cs vs r) (zip (rows df') vals)\<rparr>)
      else (Some ValueError, df'))"

subsection \<open>Column statistics\<close>

text \<open>
  The pandas reductions skip missing values (\<open>skipna=True\<close>), and give the missing
  value for a column without any value.
\<close>

definition present :: "cell list \<Rightarrow> real list" where
  "present cs = List.map_filter id cs"

definition series_mean :: "cell list \<Rightarrow> cell" where
  "series_mean cs =
     (case present cs of
        [] \<Rightarrow> None
      | x # xs \<Rightarrow> Some (sum_list (x # xs) / real (length (x # xs))))"

definition series_max :: "cell list \<Rightarrow> cell" where
  "series_max cs = (case present cs of [] \<Rightarrow> None | x # xs \<Rightarrow> Some (fold max xs x))"

definition series_min :: "cell list \<Rightarrow> cell" where
  "series_min cs = (case present cs of [] \<Rightarrow> None | x # xs \<Rightarrow> Some (fold min xs x))"

text \<open>The position of the first cell equal to \<open>v\<close>.\<close>

fun first_pos :: "cell \<Rightarrow> cell list \<Rightarrow> nat" where
  "first_pos v [] = 0"
| "first_pos v (c # cs) = (if c = v then 0 else Suc (first_pos v cs))"

text \<open>
  \<open>Series.idxmin()\<close> and \<open>Series.idxmax()\<close>: the label of the first row holding the
  extreme value. An empty series is a \<open>ValueError\<close>; a series of missing values only
  gives the missing label (\<open>None\<close>).
\<close>

definition idxmin :: "cell list \<Rightarrow> error + nat option" where
  "idxmin cs =
     (if cs = [] then Inl ValueError
      else (case series_min cs of
              None \<Rightarrow> Inr None
            | Some m \<Rightarrow> Inr (Some (first_pos (Some m) cs))))"

definition idxmax :: "cell list \<Rightarrow> error + nat option" where
  "idxmax cs =
     (if cs = [] then Inl ValueError
      else (case series_max cs of
              None \<Rightarrow> Inr None
            | Some m \<Rightarrow> Inr (Some (first_pos (Some m) cs))))"

subsection \<open>\<open>_impute_lookup\<close>\<close>

text \<open>
  The value of a \<open>MATCH\<close> target under the modes \<open>best\<close> (\<open>idx = idxmin\<close>) and
  \<open>worst\<close> (\<open>idx = idxmax\<close>), as the module computes it:
  \<^verbatim>\<open>lookup.loc[lookup.loc[(lookup[name] - center).abs().idx(),], name].flatten()[0]\<close>
  The distance column gives the label \<open>i\<close> of the row to take. The inner
  \<open>lookup.loc[i,]\<close> is that whole row, a series of its cells. The outer \<open>lookup.loc\<close>
  receives this series as its row indexer, so the cells of the row are looked up as row
  labels: a \<open>KeyError\<close> unless every one of them is a label of the table; and when they
  all are, the selection is a series, which has no \<open>flatten\<close>: an \<open>AttributeError\<close>.
  A distance column of missing values only gives the missing label, which is no label
  of the table: a \<open>KeyError\<close> as well.
\<close>

definition is_label :: "frame \<Rightarrow> cell \<Rightarrow> bool" where
  "is_label df c =
     (case c of None \<Rightarrow> False | Some x \<Rightarrow> x \<in> set (map real [0..<length (rows df)]))"

definition match_val ::
  "(cell list \<Rightarrow> error + nat option) \<Rightarrow> frame \<Rightarrow> target \<Rightarrow> error + cell" where
  "match_val idx lookup t =
     (case col lookup (name t) of
        Inl e \<Rightarrow> Inl e
      | Inr cs \<Rightarrow>
          (case idx (map (map_option (\<lambda>x. \<bar>x - center t\<bar>)) cs) of
             Inl e \<Rightarrow> Inl e
           | Inr None \<Rightarrow> Inl KeyError
           | Inr (Some i) \<Rightarrow>
               (let inner = map (rows lookup ! i) (columns lookup)
                in if list_all (is_label lookup) inner then Inl AttributeError
                   else Inl KeyError)))"

text \<open>
  \<open>lookup.loc[:, c].max().flatten()[0]\<close> and its sibling with \<open>min\<close>: the reduction
  of the column as an array of one value. The reduction of a column without rows is
  Python's own \<open>nan\<close>, which has no \<open>flatten\<close>: an \<open>AttributeError\<close>. (A column of
  missing values only reduces to a numpy \<open>nan\<close>, and that is the value.)
\<close>

definition flatten0 :: "(cell list \<Rightarrow> cell) \<Rightarrow> frame \<Rightarrow> string \<Rightarrow> error + cell list" where
  "flatten0 red lookup c =
     (case col lookup c of
        Inl e \<Rightarrow> Inl e
      | Inr cs \<Rightarrow> if cs = [] then Inl AttributeError else Inr [red cs])"

text \<open>
  The values one target adds to \<open>worst_vals\<close> and to \<open>best_vals\<close>: the source has an
  \<open>if\<close>/\<open>elif\<close> for \<open>MAX\<close> and \<open>MIN\<close>, followed by a separate \<open>if\<close> for \<open>MATCH\<close>.
\<close>

definition worst_vals :: "frame \<Rightarrow> target \<Rightarrow> error + cell list" where
  "worst_vals lookup t =
     (case (if mode t = TargetMode_MAX then flatten0 series_min lookup (name t)
            else if mode t = TargetMode_MIN then flatten0 series_max lookup (name t)
            else Inr []) of
        Inl e \<Rightarrow> Inl e
      | Inr vs \<Rightarrow>
          (if mode t = TargetMode_MATCH then map_sum id (\<lambda>v. vs @ [v]) (match_val idxmax lookup t)
           else Inr vs))"

definition best_vals :: "frame \<Rightarrow> target \<Rightarrow> error + cell list" where
  "best_vals lookup t =
     (case (if mode t = TargetMode_MAX then flatten0 series_max lookup (name t)
            else if mode t = TargetMode_MIN then flatten0 series_min lookup (name t)
            else Inr []) of
        Inl e \<Rightarrow> Inl e
      | Inr vs \<Rightarrow>
          (if mode t = TargetMode_MATCH then map_sum id (\<lambda>v. vs @ [v]) (match_val idxmin lookup t)
           else Inr vs))"

text \<open>
  \<open>row\<close> is the query row, as the message of the \<open>IndexError\<close> prints it; \<open>md\<close> is the
  parameter \<open>mode\<close> of the source (\<open>mode\<close> being the field of a target here). The
  result is the array of imputed values, one per target, and the generator after the
  call.
\<close>

definition impute_lookup ::
  "(string \<times> cell) list \<Rightarrow> frame \<Rightarrow> target list \<Rightarrow> string \<Rightarrow> rng
     \<Rightarrow> error + (cell list \<times> rng)" where
  "impute_lookup row lookup targets md g =
     (let target_names = map name targets in
      if md = ''mean'' then
        (if set target_names \<subseteq> set (columns lookup)
         then Inr (map (\<lambda>n. series_mean (map (\<lambda>r. r n) (rows lookup))) target_names, g)
         else Inl KeyError)
      else if md = ''worst'' then
        map_sum id (\<lambda>vss. (concat vss, g)) (collect (worst_vals lookup) targets)
      else if md = ''best'' then
        map_sum id (\<lambda>vss. (concat vss, g)) (collect (best_vals lookup) targets)
      else if md = ''random'' then
        (case choice g [0..<length (rows lookup)] of
           Inl e \<Rightarrow> Inl e
         | Inr (randindex, g') \<Rightarrow>
             map_sum id (\<lambda>vs. (vs, g'))
               (collect (\<lambda>t. loc_cell lookup randindex (name t)) targets))
      else Inl (IndexError row))"

subsection \<open>\<open>_lookup_targets_from_dataframe\<close>\<close>

text \<open>
  Equality of two cells as the comparison of a frame with a series computes it: a
  missing value equals nothing, not even another missing value.
\<close>

definition cell_eq :: "cell \<Rightarrow> cell \<Rightarrow> bool" where
  "cell_eq a b = (case (a, b) of (Some x, Some y) \<Rightarrow> x = y | _ \<Rightarrow> False)"

text \<open>
  \<open>lookup[(lookup.loc[:, row.index] == row).all(axis=1, skipna=False)].index.values\<close>:
  the labels of the table rows that equal the query row in every column of the query.
\<close>

definition match_ind :: "frame \<Rightarrow> string list \<Rightarrow> series \<Rightarrow> nat list" where
  "match_ind lookup cs row =
     filter (\<lambda>i. list_all (\<lambda>c. cell_eq ((rows lookup ! i) c) (row c)) cs)
       [0..<length (rows lookup)]"

text \<open>The body of the loop for one query row: its \<open>match_vals\<close>.\<close>

definition match_vals ::
  "frame \<Rightarrow> target list \<Rightarrow> string \<Rightarrow> string list \<Rightarrow> series \<Rightarrow> rng
     \<Rightarrow> error + (cell list \<times> rng)" where
  "match_vals lookup targets impute_mode cs row g =
     (let target_names = map name targets in
      if \<not> set cs \<subseteq> set (columns lookup) then Inl KeyError
      else
        (let ind = match_ind lookup cs row in
         if length ind > 1 then
           (case choice g ind of
              Inl e \<Rightarrow> Inl e
            | Inr (i, g') \<Rightarrow> map_sum id (\<lambda>vs. (vs, g')) (loc_values lookup i target_names))
         else if length ind < 1 then
           (if impute_mode = ''ignore'' then Inl (AssertionError msg_ignore)
            else impute_lookup (map (\<lambda>c. (c, row c)) cs) lookup targets impute_mode g)
         else map_sum id (\<lambda>vs. (vs, g)) (loc_values lookup (ind ! 0) target_names)))"

text \<open>The loop over the rows of the queries, collecting \<open>all_match_vals\<close>.\<close>

fun all_match_vals ::
  "frame \<Rightarrow> target list \<Rightarrow> string \<Rightarrow> string list \<Rightarrow> series list \<Rightarrow> rng
     \<Rightarrow> error + cell list list" where
  "all_match_vals lookup targets impute_mode cs [] g = Inr []"
| "all_match_vals lookup targets impute_mode cs (row # rest) g =
     (case match_vals lookup targets impute_mode cs row g of
        Inl e \<Rightarrow> Inl e
      | Inr (vs, g') \<Rightarrow>
          (case all_match_vals lookup targets impute_mode cs rest g' of
             Inl e \<Rightarrow> Inl e
           | Inr vss \<Rightarrow> Inr (vs # vss)))"

text \<open>
  The only write into \<open>queries\<close> is the last statement, after the loop; what it leaves
  of the queries when it raises is what the function leaves.
\<close>

definition lookup_targets_from_dataframe ::
  "frame \<Rightarrow> target list \<Rightarrow> frame \<Rightarrow> string \<Rightarrow> rng \<Rightarrow> error option \<times> frame" where
  "lookup_targets_from_dataframe queries targets lookup impute_mode g =
     (case all_match_vals lookup targets impute_mode (columns queries) (rows queries) g of
        Inl e \<Rightarrow> (Some e, queries)
      | Inr vals \<Rightarrow> set_columns queries (map name targets) vals)"

subsection \<open>\<open>_lookup_targets_from_callable\<close>\<close>

text \<open>
  The function is called on the cells of every row and returns a tuple of values.
  \<open>measured_targets\<close> starts as one column, labelled 0, holding the tuples. The tuples
  are split into a frame of their own, with as many columns (labelled 0, 1, ...) as the
  longest tuple has entries, shorter tuples being padded with missing values; these
  columns are then assigned into \<open>measured_targets\<close>, the first one replacing the column
  of tuples. With tuples without entries there is nothing to assign, and
  \<open>measured_targets\<close> keeps its one column of tuples: its number of columns is never 0.
  A cell that holds such a tuple holds no number, and is modelled as missing.
\<close>

definition pad :: "nat \<Rightarrow> cell list \<Rightarrow> cell list" where
  "pad k vs = vs @ replicate (k - length vs) None"

definition measured_targets :: "frame \<Rightarrow> (cell list \<Rightarrow> cell list) \<Rightarrow> cell list list" where
  "measured_targets queries lookup =
     (let tuples = map (\<lambda>r. lookup (map r (columns queries))) (rows queries);
          k = fold max (map length tuples) 0
      in map (pad (max 1 k)) tuples)"

definition shape1 :: "cell list list \<Rightarrow> nat" where
  "shape1 m = (case m of [] \<Rightarrow> 0 | r # _ \<Rightarrow> length r)"

definition lookup_targets_from_callable ::
  "frame \<Rightarrow> target list \<Rightarrow> (cell list \<Rightarrow> cell list) \<Rightarrow> error option \<times> frame" where
  "lookup_targets_from_callable queries targets lookup =
     (if rows queries = [] then (Some OutsideModel, queries)
      else
        (let m = measured_targets queries lookup in
         if shape1 m \<noteq> length targets then (Some (AssertionError msg_target_count), queries)
         else (None,
               fold (\<lambda>(k_target, t) q. set_column q (name t) (map (\<lambda>r. r ! k_target) m))
                 (enumerate 0 targets) queries)))"

subsection \<open>\<open>look_up_targets\<close>\<close>

text \<open>
  What the caller may pass as \<open>lookup\<close>: nothing, a function, a data frame, or any other
  object. \<open>add_fake_results\<close> belongs to another module and is a parameter here.
\<close>

datatype lookup_source =
    NoLookup
  | CallableLookup "cell list \<Rightarrow> cell list"
  | FrameLookup frame
  | OtherLookup

definition look_up_targets ::
  "(frame \<Rightarrow> target list \<Rightarrow> error option \<times> frame) \<Rightarrow> frame \<Rightarrow> target list
     \<Rightarrow> lookup_source \<Rightarrow> string \<Rightarrow> rng \<Rightarrow> error option \<times> frame" where
  "look_up_targets add_fake_results queries targets lookup impute_mode g =
     (case lookup of
        NoLookup \<Rightarrow> add_fake_results queries targets
      | CallableLookup f \<Rightarrow> lookup_targets_from_callable queries targets f
      | FrameLookup df \<Rightarrow> lookup_targets_from_dataframe queries targets df impute_mode g
      | OtherLookup \<Rightarrow> (None, queries))"

subsection \<open>Example data\<close>

text \<open>
  The table of two measurements \<open>{T: 25, flow: 10, Yield: 50}\<close> and
  \<open>{T: 80, flow: 100, Yield: 90}\<close>, one query that the table holds and one that it
  does not, and the target \<open>Yield\<close> in each mode (with the centre 60 of its interval).
\<close>

definition series_of :: "(string \<times> real) list \<Rightarrow> series" where
  "series_of kvs = map_of kvs"

definition ex_lookup :: frame where
  "ex_lookup =
     \<lparr>columns = [''T'', ''flow'', ''Yield''],
      rows = [series_of [(''T'', 25), (''flow'', 10), (''Yield'', 50)],
              series_of [(''T'', 80), (''flow'', 100), (''Yield'', 90)]]\<rparr>"

definition ex_hit :: frame where
  "ex_hit = \<lparr>columns = [''T'', ''flow''], rows = [series_of [(''T'', 25), (''flow'', 10)]]\<rparr>"

definition ex_miss :: frame where
  "ex_miss = \<lparr>columns = [''T'', ''flow''], rows = [series_of [(''T'', 50), (''flow'', 50)]]\<rparr>"

definition ex_hit_miss :: frame where
  "ex_hit_miss =
     \<lparr>columns = [''T'', ''flow''],
      rows = [series_of [(''T'', 25), (''flow'', 10)], series_of [(''T'', 50), (''flow'', 50)]]\<rparr>"

definition Yield :: "TargetMode \<Rightarrow> target" where
  "Yield m = \<lparr>name = ''Yield'', mode = m, center = 60\<rparr>"

text \<open>A table whose only row has no value for the target, and a query for that row.\<close>

definition ex_lookup_nan :: frame where
  "ex_lookup_nan = \<lparr>columns = [''T'', ''Yield''], rows = [series_of [(''T'', 25)]]\<rparr>"

definition ex_query_T :: frame where
  "ex_query_T = \<lparr>columns = [''T''], rows = [series_of [(''T'', 25)]]\<rparr>"

text \<open>A query whose parameter \<open>flow\<close> is missing.\<close>

definition ex_unset :: series where
  "ex_unset = series_of [(''T'', 25)]"

text \<open>
  A table is full for a list of targets when it has at least one row and every row holds
  a value under the name of every target.
\<close>

definition full :: "frame \<Rightarrow> target list \<Rightarrow> bool" where
  "full L T = (rows L \<noteq> [] \<and> list_all (\<lambda>r. list_all (\<lambda>t. r (name t) \<noteq> None) T) (rows L))"

section \<open>Properties\<close>

subsection \<open>Auxiliary facts\<close>

lemmas eval_defs =
  lookup_targets_from_dataframe_def match_vals_def match_ind_def cell_eq_def
  loc_values_def loc_cell_def impute_lookup_def best_vals_def worst_vals_def match_val_def
  col_def series_max_def series_min_def series_mean_def present_def List.map_filter_def
  idxmin_def idxmax_def is_label_def choice_def set_columns_def add_columns_def set_row_def
  set_column_def flatten0_def
  lookup_targets_from_callable_def measured_targets_def shape1_def pad_def
  ex_lookup_def ex_hit_def ex_miss_def ex_hit_miss_def Yield_def ex_lookup_nan_def
  ex_query_T_def ex_unset_def series_of_def

lemma set_row_map: "set_row cs (map f cs) r c = (if c \<in> set cs then f c else r c)"
  unfolding set_row_def
  by (induction cs arbitrary: r) auto

lemma set_row_present:
  "length vs = length cs \<Longrightarrow> list_all (\<lambda>v. v \<noteq> None) vs \<Longrightarrow> c \<in> set cs \<or> r c \<noteq> None
     \<Longrightarrow> set_row cs vs r c \<noteq> None"
  unfolding set_row_def
proof (induction cs arbitrary: vs r)
  case Nil
  then show ?case by simp
next
  case (Cons a cs)
  then obtain v vs' where vs: "vs = v # vs'" by (cases vs) auto
  show ?case
  proof (cases "c \<in> set cs")
    case True
    then show ?thesis using Cons.IH[of vs' "r(a := v)"] Cons.prems vs by simp
  next
    case False
    then show ?thesis using Cons.IH[of vs' "r(a := v)"] Cons.prems vs by auto
  qed
qed

lemma set_columns_None:
  "set_columns q cs vals = (None, q') \<Longrightarrow> distinct cs \<and> q' = snd (set_columns q cs vals)"
  by (auto simp: set_columns_def Let_def split: if_splits)

lemma rows_set_columns:
  "distinct cs \<Longrightarrow> length vals = length (rows q) \<Longrightarrow> i < length (rows q) \<Longrightarrow>
     rows (snd (set_columns q cs vals)) ! i = set_row cs (vals ! i) (rows (add_columns q cs) ! i)"
  by (simp add: set_columns_def add_columns_def)

lemma all_match_vals_rel:
  "all_match_vals L T m cs rs g = Inr vss \<Longrightarrow>
     list_all2 (\<lambda>r vs. \<exists>g0 g1. match_vals L T m cs r g0 = Inr (vs, g1)) rs vss"
proof (induction rs arbitrary: g vss)
  case Nil
  then show ?case by simp
next
  case (Cons r rs)
  then show ?case
    by (auto split: sum.splits prod.splits)
qed

lemma all_match_vals_length:
  "all_match_vals L T m cs rs g = Inr vss \<Longrightarrow> length vss = length rs"
  by (drule all_match_vals_rel) (simp add: list_all2_lengthD)

lemma match_ind_range: "i \<in> set (match_ind L cs r) \<Longrightarrow> i < length (rows L)"
  by (simp add: match_ind_def)

lemma choice_member: "choice g a = Inr (i, g') \<Longrightarrow> i \<in> set a"
  by (auto simp: choice_def split: if_splits)

lemma choice_nonempty: "a \<noteq> [] \<Longrightarrow> \<exists>i g'. choice g a = Inr (i, g')"
  by (simp add: choice_def)

lemma match_val_fails: "\<exists>e. match_val idx L t = Inl e"
  by (auto simp: match_val_def Let_def split: sum.splits option.splits)

lemma match_vals_single:
  assumes "match_vals L T m cs r g = Inr (vs, g')" and "match_ind L cs r = [k]"
  shows "vs = map (rows L ! k) (map name T)"
  using assms
  by (auto simp: match_vals_def loc_values_def Let_def split: if_splits)

lemma map_sum_Inr: "map_sum id f x = Inr y \<longleftrightarrow> (\<exists>z. x = Inr z \<and> y = f z)"
  by (cases x) auto

lemma map_sum_Inl: "map_sum id f x = Inl e \<longleftrightarrow> x = Inl e"
  by (cases x) auto

lemma present_full:
  "list_all (\<lambda>c. c \<noteq> None) cs \<Longrightarrow> present cs = map the cs"
  unfolding present_def
  by (induction cs) (auto simp: List.map_filter_simps)

lemma series_mean_full:
  "cs \<noteq> [] \<Longrightarrow> list_all (\<lambda>c. c \<noteq> None) cs \<Longrightarrow>
     series_mean cs = Some (sum_list (map the cs) / real (length cs))"
  by (cases cs) (auto simp: series_mean_def present_full split: list.splits)

lemma series_max_full:
  "cs \<noteq> [] \<Longrightarrow> list_all (\<lambda>c. c \<noteq> None) cs \<Longrightarrow> series_max cs \<noteq> None"
  by (cases cs) (auto simp: series_max_def present_full split: list.splits)

lemma series_min_full:
  "cs \<noteq> [] \<Longrightarrow> list_all (\<lambda>c. c \<noteq> None) cs \<Longrightarrow> series_min cs \<noteq> None"
  by (cases cs) (auto simp: series_min_def present_full split: list.splits)

lemma collect_rel:
  "collect f xs = Inr ys \<Longrightarrow> list_all2 (\<lambda>x y. f x = Inr y) xs ys"
  by (induction xs arbitrary: ys) (auto split: sum.splits)

lemma concat_singletons:
  "list_all2 (\<lambda>x vs. length vs = 1 \<and> list_all P vs) xs vss \<Longrightarrow>
     length (concat vss) = length xs \<and> list_all P (concat vss)"
  by (induction xs vss rule: list_all2_induct) auto

lemma full_col:
  "full L T \<Longrightarrow> t \<in> set T \<Longrightarrow>
     map (\<lambda>r. r (name t)) (rows L) \<noteq> [] \<and> list_all (\<lambda>c. c \<noteq> None) (map (\<lambda>r. r (name t)) (rows L))"
  by (auto simp: full_def list_all_iff)

lemma best_vals_ok:
  assumes "full L T" "t \<in> set T" "best_vals L t = Inr vs"
  shows "length vs = 1 \<and> list_all (\<lambda>v. v \<noteq> None) vs"
proof -
  note c = full_col[OF assms(1,2)]
  from match_val_fails[of idxmin L t] obtain e where e: "match_val idxmin L t = Inl e" by blast
  show ?thesis
    using assms(3) c series_max_full[of "map (\<lambda>r. r (name t)) (rows L)"]
      series_min_full[of "map (\<lambda>r. r (name t)) (rows L)"] e
    by (cases "mode t") (auto simp: best_vals_def flatten0_def col_def split: if_splits sum.splits)
qed

lemma worst_vals_ok:
  assumes "full L T" "t \<in> set T" "worst_vals L t = Inr vs"
  shows "length vs = 1 \<and> list_all (\<lambda>v. v \<noteq> None) vs"
proof -
  note c = full_col[OF assms(1,2)]
  from match_val_fails[of idxmax L t] obtain e where e: "match_val idxmax L t = Inl e" by blast
  show ?thesis
    using assms(3) c series_max_full[of "map (\<lambda>r. r (name t)) (rows L)"]
      series_min_full[of "map (\<lambda>r. r (name t)) (rows L)"] e
    by (cases "mode t") (auto simp: worst_vals_def flatten0_def col_def split: if_splits sum.splits)
qed

lemma collect_singletons:
  assumes "\<And>t vs. t \<in> set T \<Longrightarrow> f t = Inr vs \<Longrightarrow> length vs = 1 \<and> list_all P vs"
    and "collect f T = Inr vss"
  shows "length (concat vss) = length T \<and> list_all P (concat vss)"
proof -
  from collect_rel[OF assms(2)] have "list_all2 (\<lambda>x y. f x = Inr y) T vss" .
  then have "list_all2 (\<lambda>x vs. length vs = 1 \<and> list_all P vs) T vss"
    using assms(1) by (induction T vss rule: list_all2_induct) auto
  then show ?thesis by (rule concat_singletons)
qed

lemma collect_cells:
  assumes "\<And>t v. t \<in> set T \<Longrightarrow> f t = Inr v \<Longrightarrow> P v"
    and "collect f T = Inr vs"
  shows "length vs = length T \<and> list_all P vs"
proof -
  from collect_rel[OF assms(2)] have "list_all2 (\<lambda>x y. f x = Inr y) T vs" .
  then show ?thesis
    using assms(1) by (induction T vs rule: list_all2_induct) auto
qed

lemma full_cell: "full L T \<Longrightarrow> t \<in> set T \<Longrightarrow> i < length (rows L) \<Longrightarrow> (rows L ! i) (name t) \<noteq> None"
  by (auto simp: full_def list_all_iff)

lemma impute_lookup_ok:
  assumes f: "full L T" and r: "impute_lookup row L T m g = Inr (vs, g')"
  shows "length vs = length T \<and> list_all (\<lambda>v. v \<noteq> None) vs"
proof -
  consider (mean) "m = ''mean''" | (worst) "m = ''worst''" | (best) "m = ''best''"
    | (random) "m = ''random''" | (other) "m \<notin> {''mean'', ''worst'', ''best'', ''random''}"
    by auto
  then show ?thesis
  proof cases
    case mean
    then have vs: "vs = map (\<lambda>n. series_mean (map (\<lambda>r. r n) (rows L))) (map name T)"
      using r by (auto simp: impute_lookup_def split: if_splits)
    have "\<And>t. t \<in> set T \<Longrightarrow> series_mean (map (\<lambda>r. r (name t)) (rows L)) \<noteq> None"
      using full_col[OF f] series_mean_full by fastforce
    then show ?thesis using vs by (simp add: list_all_iff)
  next
    case worst
    then obtain vss where "collect (worst_vals L) T = Inr vss" "vs = concat vss"
      using r by (auto simp: impute_lookup_def map_sum_Inr split: sum.splits)
    then show ?thesis
      using collect_singletons[of T "worst_vals L" "\<lambda>v. v \<noteq> None" vss] worst_vals_ok[OF f]
      by blast
  next
    case best
    then obtain vss where "collect (best_vals L) T = Inr vss" "vs = concat vss"
      using r by (auto simp: impute_lookup_def map_sum_Inr split: sum.splits)
    then show ?thesis
      using collect_singletons[of T "best_vals L" "\<lambda>v. v \<noteq> None" vss] best_vals_ok[OF f]
      by blast
  next
    case random
    then obtain i g1 where i: "choice g [0..<length (rows L)] = Inr (i, g1)"
      and c: "collect (\<lambda>t. loc_cell L i (name t)) T = Inr vs"
      using r by (auto simp: impute_lookup_def map_sum_Inr split: sum.splits)
    from choice_member[OF i] have "i < length (rows L)" by simp
    then have "\<And>t v. t \<in> set T \<Longrightarrow> loc_cell L i (name t) = Inr v \<Longrightarrow> v \<noteq> None"
      using full_cell[OF f] by (auto simp: loc_cell_def split: if_splits)
    then show ?thesis
      using collect_cells[of T "\<lambda>t. loc_cell L i (name t)" "\<lambda>v. v \<noteq> None" vs] c by blast
  next
    case other
    then show ?thesis using r by (auto simp: impute_lookup_def)
  qed
qed

lemma loc_values_ok:
  assumes f: "full L T" and r: "loc_values L i (map name T) = Inr vs"
  shows "length vs = length T \<and> list_all (\<lambda>v. v \<noteq> None) vs"
  using r full_cell[OF f] by (auto simp: loc_values_def list_all_iff split: if_splits)

lemma match_vals_ok:
  assumes f: "full L T" and r: "match_vals L T m cs row g = Inr (vs, g')"
  shows "length vs = length T \<and> list_all (\<lambda>v. v \<noteq> None) vs"
  using r impute_lookup_ok[OF f] loc_values_ok[OF f]
  by (auto simp: match_vals_def Let_def map_sum_Inr split: if_splits sum.splits prod.splits)


lemma all_match_vals_ok:
  assumes f: "full L T" and r: "all_match_vals L T m cs rs g = Inr vss"
  shows "list_all (\<lambda>vs. length vs = length T \<and> list_all (\<lambda>v. v \<noteq> None) vs) vss"
proof -
  from all_match_vals_rel[OF r]
  have "list_all2 (\<lambda>r vs. \<exists>g0 g1. match_vals L T m cs r g0 = Inr (vs, g1)) rs vss" .
  then show ?thesis
    using match_vals_ok[OF f] by (induction rs vss rule: list_all2_induct) auto
qed

lemma columns_add_columns: "set cs \<subseteq> set (columns (add_columns q cs))"
proof
  fix c assume c: "c \<in> set cs"
  show "c \<in> set (columns (add_columns q cs))"
  proof (cases "c \<in> set (columns q)")
    case True
    then show ?thesis by (simp add: add_columns_def)
  next
    case False
    then have "count_list (columns q) c = 0" by (simp add: count_list_0_iff)
    moreover have "count_list cs c \<noteq> 0" using c by (simp add: count_list_0_iff)
    ultimately have "c \<in> set (replicate (count_list cs c - count_list (columns q) c) c)"
      by simp
    then show ?thesis using c by (auto simp: add_columns_def)
  qed
qed

lemma columns_set_columns: "set cs \<subseteq> set (columns (snd (set_columns q cs vals)))"
  using columns_add_columns[of cs q] by (simp add: set_columns_def Let_def)

lemma length_rows_set_columns:
  "length vals = length (rows q) \<Longrightarrow>
     length (rows (snd (set_columns q cs vals))) = length (rows q)"
  by (simp add: set_columns_def add_columns_def Let_def)

lemma match_vals_matched:
  assumes cs: "set cs \<subseteq> set (columns L)" and ts: "set (map name T) \<subseteq> set (columns L)"
    and m: "match_ind L cs r \<noteq> []"
  shows "\<exists>vs g'. match_vals L T md cs r g = Inr (vs, g')"
proof (cases "length (match_ind L cs r) > 1")
  case True
  from choice_nonempty[OF m, of g] obtain i g' where c: "choice g (match_ind L cs r) = Inr (i, g')"
    by blast
  from choice_member[OF c] have "i < length (rows L)" by (rule match_ind_range)
  then show ?thesis
    using True c cs ts by (simp add: match_vals_def loc_values_def)
next
  case False
  with m have one: "length (match_ind L cs r) = 1"
    by (cases "match_ind L cs r") auto
  then have "match_ind L cs r ! 0 \<in> set (match_ind L cs r)"
    by (cases "match_ind L cs r") auto
  then have "match_ind L cs r ! 0 < length (rows L)" by (rule match_ind_range)
  then show ?thesis
    using one cs ts by (simp add: match_vals_def loc_values_def)
qed

lemma first_unmatched_raises:
  assumes cs: "set cs \<subseteq> set (columns L)" and ts: "set (map name T) \<subseteq> set (columns L)"
    and f: "find (\<lambda>r. match_ind L cs r = []) rs = Some r0"
    and e: "\<And>g. match_vals L T md cs r0 g = Inl e"
  shows "all_match_vals L T md cs rs g = Inl e"
  using f
proof (induction rs arbitrary: g)
  case Nil
  then show ?case by simp
next
  case (Cons r rs)
  show ?case
  proof (cases "match_ind L cs r = []")
    case True
    with Cons.prems have "r = r0" by simp
    then show ?thesis using e by simp
  next
    case False
    from match_vals_matched[OF cs ts False, where md = md and g = g] obtain vs g'
      where "match_vals L T md cs r g = Inr (vs, g')" by blast
    moreover have "all_match_vals L T md cs rs g' = Inl e"
      using Cons.IH Cons.prems False by simp
    ultimately show ?thesis by simp
  qed
qed

lemma unmatched_ignore:
  "set cs \<subseteq> set (columns L) \<Longrightarrow> match_ind L cs r = [] \<Longrightarrow>
     match_vals L T ''ignore'' cs r g = Inl (AssertionError msg_ignore)"
  by (simp add: match_vals_def)

lemma unmatched_unrecognised:
  "set cs \<subseteq> set (columns L) \<Longrightarrow> match_ind L cs r = [] \<Longrightarrow>
     md \<notin> {''mean'', ''worst'', ''best'', ''random'', ''ignore''} \<Longrightarrow>
     match_vals L T md cs r g = Inl (IndexError (map (\<lambda>c. (c, r c)) cs))"
  by (simp add: match_vals_def impute_lookup_def)

lemma find_unmatched:
  "find P rs = Some r0 \<Longrightarrow> P r0"
  by (auto simp: find_Some_iff)

lemma collect_fails:
  "t \<in> set T \<Longrightarrow> f t = Inl e \<Longrightarrow> \<exists>e'. collect f T = Inl e'"
  by (induction T) (auto split: sum.splits)

lemma collect_all_ok:
  "(\<And>t. t \<in> set T \<Longrightarrow> f t = Inr (h t)) \<Longrightarrow> collect f T = Inr (map h T)"
  by (induction T) auto

lemma series_max_Max:
  assumes "cs \<noteq> []" and "list_all (\<lambda>c. c \<noteq> None) cs"
  shows "series_max cs = Some (Max (set (map the cs)))"
proof -
  from assms(1) obtain c cs' where cs: "cs = c # cs'" by (cases cs) auto
  have "present cs = the c # map the cs'"
    using assms(2) cs by (simp add: present_full)
  then have "series_max cs = Some (fold max (map the cs') (the c))"
    by (simp add: series_max_def)
  also have "fold max (map the cs') (the c) = Max (set (the c # map the cs'))"
    by (simp only: Max.set_eq_fold)
  finally show ?thesis using cs by simp
qed

lemma series_min_Min:
  assumes "cs \<noteq> []" and "list_all (\<lambda>c. c \<noteq> None) cs"
  shows "series_min cs = Some (Min (set (map the cs)))"
proof -
  from assms(1) obtain c cs' where cs: "cs = c # cs'" by (cases cs) auto
  have "present cs = the c # map the cs'"
    using assms(2) cs by (simp add: present_full)
  then have "series_min cs = Some (fold min (map the cs') (the c))"
    by (simp add: series_min_def)
  also have "fold min (map the cs') (the c) = Min (set (the c # map the cs'))"
    by (simp only: Min.set_eq_fold)
  finally show ?thesis using cs by simp
qed

lemma fold_max_const:
  "\<forall>x \<in> set xs. x = k \<Longrightarrow> fold max xs a = (if xs = [] then a else max a (k::nat))"
  by (induction xs arbitrary: a) auto

lemma shape1_measured_targets:
  assumes "rows queries \<noteq> []"
    and "\<forall>r \<in> set (rows queries). length (lookup (map r (columns queries))) = k"
  shows "shape1 (measured_targets queries lookup) = max 1 k"
proof -
  let ?tuples = "map (\<lambda>r. lookup (map r (columns queries))) (rows queries)"
  have "fold max (map length ?tuples) 0 = k"
    using fold_max_const[of "map length ?tuples" k 0] assms by simp
  moreover from assms(1) obtain r rs where rs: "rows queries = r # rs"
    by (cases "rows queries") auto
  moreover have "length (lookup (map r (columns queries))) = k"
    using assms(2) rs by simp
  ultimately show ?thesis
    by (auto simp: measured_targets_def shape1_def pad_def)
qed

lemma match_vals_single_value:
  assumes "set cs \<subseteq> set (columns L)" and "set (map name T) \<subseteq> set (columns L)"
    and "match_ind L cs r = [k]"
  shows "match_vals L T md cs r g = Inr (map (rows L ! k) (map name T), g)"
proof -
  have "k \<in> set (match_ind L cs r)" using assms(3) by simp
  then have "k < length (rows L)" by (rule match_ind_range)
  then show ?thesis
    using assms by (simp add: match_vals_def loc_values_def)
qed

lemma all_matched_succeeds:
  assumes "set cs \<subseteq> set (columns L)" and "set (map name T) \<subseteq> set (columns L)"
    and "\<forall>r \<in> set rs. match_ind L cs r \<noteq> []"
  shows "\<exists>vss. all_match_vals L T md cs rs g = Inr vss"
  using assms(3)
proof (induction rs arbitrary: g)
  case Nil
  then show ?case by simp
next
  case (Cons r rs)
  then have "match_ind L cs r \<noteq> []" by simp
  from match_vals_matched[OF assms(1,2) this, where md = md and g = g] obtain vs g'
    where "match_vals L T md cs r g = Inr (vs, g')" by blast
  moreover obtain vss where "all_match_vals L T md cs rs g' = Inr vss"
    using Cons.IH Cons.prems by auto
  ultimately show ?case by simp
qed

text \<open>
  What the hypotheses on \<open>match_ind\<close> say: two cells are equal when both hold the same
  value; a row has no match when every table row differs from it in some column of the
  query, and exactly the match \<open>k\<close> when row \<open>k\<close> of the table equals it in every
  column of the query and no other row does.
\<close>

lemma distinct_singleton_set:
  assumes "distinct xs" and "set xs = {k}"
  shows "xs = [k]"
proof (cases xs)
  case Nil
  then show ?thesis using assms(2) by simp
next
  case (Cons x ys)
  have x: "x = k" using assms(2) Cons by auto
  have "set ys \<subseteq> {k}" using assms(2) Cons by auto
  moreover have "k \<notin> set ys" using assms(1) Cons x by simp
  ultimately have "ys = []" by (cases ys) auto
  then show ?thesis using Cons x by simp
qed

lemma filter_upt_single:
  "filter P [0..<n] = [k] \<longleftrightarrow> k < n \<and> P k \<and> (\<forall>j<n. P j \<longrightarrow> j = k)"
proof
  assume "filter P [0..<n] = [k]"
  then have "set (filter P [0..<n]) = {k}" by simp
  then show "k < n \<and> P k \<and> (\<forall>j<n. P j \<longrightarrow> j = k)" by auto
next
  assume a: "k < n \<and> P k \<and> (\<forall>j<n. P j \<longrightarrow> j = k)"
  then have "set (filter P [0..<n]) = {k}" by auto
  moreover have "distinct (filter P [0..<n])" by simp
  ultimately show "filter P [0..<n] = [k]" by (rule distinct_singleton_set[rotated])
qed

lemma match_ind_single_iff:
  "match_ind L cs r = [k] \<longleftrightarrow>
     k < length (rows L) \<and> (\<forall>c \<in> set cs. cell_eq ((rows L ! k) c) (r c))
     \<and> (\<forall>j < length (rows L). (\<forall>c \<in> set cs. cell_eq ((rows L ! j) c) (r c)) \<longrightarrow> j = k)"
  by (simp only: match_ind_def filter_upt_single list_all_iff)

lemma match_ind_Nil_iff:
  "match_ind L cs r = [] \<longleftrightarrow>
     (\<forall>i < length (rows L). \<exists>c \<in> set cs. \<not> cell_eq ((rows L ! i) c) (r c))"
  by (auto simp: match_ind_def filter_empty_conv list_all_iff)

lemma cell_eq_iff: "cell_eq a b \<longleftrightarrow> (\<exists>x. a = Some x \<and> b = Some x)"
  by (cases a; cases b) (auto simp: cell_eq_def)

subsection \<open>Rows with exactly one match\<close>

text \<open>
  C1. For a query row with exactly one matching row in the reference table (row \<open>k\<close>),
  the values the resolution takes for the row are the cells that row \<open>k\<close> of the table
  holds under the target names, one per target and in the order of the target list
  (given that the table has the columns of the queries and of the targets, this step
  cannot fail); and when the call returns, the query row carries under the name of every
  target that very cell, the name being a column of the queries. The write is the last
  statement of the function: a call that raises for another row of the batch has written
  nothing.
\<close>

theorem single_match_copies_table_values:
  assumes i: "i < length (rows queries)"
    and one: "match_ind lookup (columns queries) (rows queries ! i) = [k]"
  shows "(set (columns queries) \<subseteq> set (columns lookup)
            \<and> set (map name targets) \<subseteq> set (columns lookup)
          \<longrightarrow> match_vals lookup targets impute_mode (columns queries) (rows queries ! i) g0
                = Inr (map (rows lookup ! k) (map name targets), g0))
         \<and> (lookup_targets_from_dataframe queries targets lookup impute_mode g = (None, q')
          \<longrightarrow> (\<forall>t \<in> set targets.
                 (rows q' ! i) (name t) = (rows lookup ! k) (name t)
                 \<and> name t \<in> set (columns q')))"
proof (intro conjI impI)
  assume "set (columns queries) \<subseteq> set (columns lookup)
            \<and> set (map name targets) \<subseteq> set (columns lookup)"
  then show "match_vals lookup targets impute_mode (columns queries) (rows queries ! i) g0
                = Inr (map (rows lookup ! k) (map name targets), g0)"
    using one by (simp add: match_vals_single_value)
next
  assume ok: "lookup_targets_from_dataframe queries targets lookup impute_mode g = (None, q')"
  obtain vals where vals:
    "all_match_vals lookup targets impute_mode (columns queries) (rows queries) g = Inr vals"
    and w: "set_columns queries (map name targets) vals = (None, q')"
    using ok by (auto simp: lookup_targets_from_dataframe_def split: sum.splits)
  from set_columns_None[OF w]
  have d: "distinct (map name targets)"
    and q': "q' = snd (set_columns queries (map name targets) vals)"
    by simp_all
  have len: "length vals = length (rows queries)"
    using vals by (rule all_match_vals_length)
  from all_match_vals_rel[OF vals] i
  obtain g1 g2 where
    "match_vals lookup targets impute_mode (columns queries) (rows queries ! i) g1
       = Inr (vals ! i, g2)"
    by (auto simp: list_all2_conv_all_nth)
  then have "vals ! i = map (rows lookup ! k) (map name targets)"
    using one by (rule match_vals_single)
  then have row: "rows q' ! i =
      set_row (map name targets) (map (rows lookup ! k) (map name targets))
        (rows (add_columns queries (map name targets)) ! i)"
    using q' len i d by (simp only: rows_set_columns)
  show "\<forall>t \<in> set targets.
          (rows q' ! i) (name t) = (rows lookup ! k) (name t) \<and> name t \<in> set (columns q')"
  proof
    fix t assume t: "t \<in> set targets"
    have "(rows q' ! i) (name t) = (rows lookup ! k) (name t)"
      using row t by (simp only: set_row_map) simp
    moreover have "name t \<in> set (columns q')"
      using t q' columns_set_columns[of "map name targets" queries vals] by auto
    ultimately show "(rows q' ! i) (name t) = (rows lookup ! k) (name t)
                       \<and> name t \<in> set (columns q')"
      by simp
  qed
qed

theorem single_match_copies_table_values_witness:
  "0 < length (rows ex_hit_miss)
   \<and> match_ind ex_lookup (columns ex_hit_miss) (rows ex_hit_miss ! 0) = [0]
   \<and> set (columns ex_hit_miss) \<subseteq> set (columns ex_lookup)
   \<and> set (map name [Yield TargetMode_MAX]) \<subseteq> set (columns ex_lookup)
   \<and> map_sum id fst (match_vals ex_lookup [Yield TargetMode_MAX] ''error'' (columns ex_hit_miss)
                       (rows ex_hit_miss ! 0) (\<lambda>_. 0)) = Inr [Some 50]
   \<and> fst (lookup_targets_from_dataframe ex_hit_miss [Yield TargetMode_MAX] ex_lookup ''best''
            (\<lambda>_. 0)) = None
   \<and> (rows (snd (lookup_targets_from_dataframe ex_hit_miss [Yield TargetMode_MAX] ex_lookup
                    ''best'' (\<lambda>_. 0))) ! 0) ''Yield'' = Some 50"
proof -
  let ?res = "lookup_targets_from_dataframe ex_hit_miss [Yield TargetMode_MAX] ex_lookup
                ''best'' (\<lambda>_. 0)"
  have i: "0 < length (rows ex_hit_miss)"
    by (simp add: ex_hit_miss_def)
  have one: "match_ind ex_lookup (columns ex_hit_miss) (rows ex_hit_miss ! 0) = [0]"
    by (simp add: eval_defs)
  have cs: "set (columns ex_hit_miss) \<subseteq> set (columns ex_lookup)"
    by (simp add: ex_hit_miss_def ex_lookup_def)
  have ts: "set (map name [Yield TargetMode_MAX]) \<subseteq> set (columns ex_lookup)"
    by (simp add: Yield_def ex_lookup_def)
  have ok: "fst ?res = None"
    by (simp add: eval_defs)
  then have res: "?res = (None, snd ?res)"
    by (metis prod.collapse)
  have cell: "(rows ex_lookup ! 0) ''Yield'' = Some 50"
    by (simp add: ex_lookup_def series_of_def)
  note inst = single_match_copies_table_values[OF i one, where targets = "[Yield TargetMode_MAX]"
      and g = "\<lambda>_. 0" and q' = "snd ?res"]
  have "match_vals ex_lookup [Yield TargetMode_MAX] ''error'' (columns ex_hit_miss)
          (rows ex_hit_miss ! 0) (\<lambda>_. 0) = Inr ([Some 50], \<lambda>_. 0)"
    using inst[where impute_mode = "''error''" and ?g0.0 = "\<lambda>_. 0"] cs ts cell
    by (simp add: Yield_def)
  moreover have "(rows (snd ?res) ! 0) ''Yield'' = Some 50"
    using inst[where impute_mode = "''best''"] res cell by (simp add: Yield_def)
  ultimately show ?thesis
    using i one cs ts ok by simp
qed

text \<open>
  When every query row has at least one matching row in the table and the target names
  are pairwise distinct, the call returns without an exception, whatever the impute
  mode.
\<close>

theorem all_rows_matched_succeeds:
  assumes "set (columns queries) \<subseteq> set (columns lookup)"
    and "set (map name targets) \<subseteq> set (columns lookup)"
    and "\<forall>r \<in> set (rows queries). match_ind lookup (columns queries) r \<noteq> []"
    and "distinct (map name targets)"
  shows "fst (look_up_targets add_fake_results queries targets (FrameLookup lookup) impute_mode g)
           = None"
  using all_matched_succeeds[OF assms(1,2,3), of impute_mode g] assms(4)
  by (auto simp: look_up_targets_def lookup_targets_from_dataframe_def set_columns_def Let_def)

theorem all_rows_matched_succeeds_witness:
  "set (columns ex_hit) \<subseteq> set (columns ex_lookup)
   \<and> set (map name [Yield TargetMode_MAX]) \<subseteq> set (columns ex_lookup)
   \<and> list_all (\<lambda>r. match_ind ex_lookup (columns ex_hit) r \<noteq> []) (rows ex_hit)
   \<and> distinct (map name [Yield TargetMode_MAX])
   \<and> fst (look_up_targets (\<lambda>q ts. (None, q)) ex_hit [Yield TargetMode_MAX]
            (FrameLookup ex_lookup) ''ignore'' (\<lambda>_. 0)) = None"
proof -
  have cs: "set (columns ex_hit) \<subseteq> set (columns ex_lookup)"
    by (simp add: ex_hit_def ex_lookup_def)
  have ts: "set (map name [Yield TargetMode_MAX]) \<subseteq> set (columns ex_lookup)"
    by (simp add: Yield_def ex_lookup_def)
  have m: "\<forall>r \<in> set (rows ex_hit). match_ind ex_lookup (columns ex_hit) r \<noteq> []"
    by (simp add: eval_defs)
  have d: "distinct (map name [Yield TargetMode_MAX])"
    by simp
  show ?thesis
    using cs ts m d all_rows_matched_succeeds[OF cs ts m d] by (simp add: list_all_iff)
qed

subsection \<open>All or nothing\<close>

text \<open>
  C2, as amended. For targets with pairwise distinct names, a call of
  \<open>look_up_targets\<close> with a reference table either raises, and then the queries are
  exactly as they were (no target column has been written), or it returns, and then the
  queries have the same rows as before, every target name is a column, and every row has
  been assigned a cell under every target name. These cells are all values (none is
  missing) when the table has at least one row and holds a value in every target column
  of every row. Without that condition a cell can be missing: the value copied from a
  matching table row is whatever the table holds. (With two targets of one name the
  final assignment itself raises, after it has added the columns; the theorem says
  nothing of that case.)
\<close>

theorem table_resolution_all_or_nothing:
  assumes "distinct (map name targets)"
  shows
  "case look_up_targets add_fake_results queries targets (FrameLookup lookup) impute_mode g of
     (Some e, q') \<Rightarrow> q' = queries
   | (None, q') \<Rightarrow>
       length (rows q') = length (rows queries)
       \<and> set (map name targets) \<subseteq> set (columns q')
       \<and> (rows lookup \<noteq> [] \<and> (\<forall>r \<in> set (rows lookup). \<forall>t \<in> set targets. r (name t) \<noteq> None)
            \<longrightarrow> (\<forall>r \<in> set (rows q'). \<forall>t \<in> set targets. r (name t) \<noteq> None))"
proof (cases "all_match_vals lookup targets impute_mode (columns queries) (rows queries) g")
  case (Inl e)
  then show ?thesis
    by (simp add: look_up_targets_def lookup_targets_from_dataframe_def)
next
  case (Inr vals)
  let ?q = "snd (set_columns queries (map name targets) vals)"
  have res: "look_up_targets add_fake_results queries targets (FrameLookup lookup) impute_mode g
               = (None, ?q)"
    using Inr assms
    by (simp add: look_up_targets_def lookup_targets_from_dataframe_def set_columns_def Let_def)
  have len: "length vals = length (rows queries)"
    using Inr by (rule all_match_vals_length)
  have filled: "\<forall>r \<in> set (rows ?q). \<forall>t \<in> set targets. r (name t) \<noteq> None"
    if ne: "rows lookup \<noteq> []"
      and pr: "\<forall>r \<in> set (rows lookup). \<forall>t \<in> set targets. r (name t) \<noteq> None"
  proof (intro ballI)
    fix r t assume r: "r \<in> set (rows ?q)" and t: "t \<in> set targets"
    have f: "full lookup targets"
      using ne pr by (simp add: full_def list_all_iff)
    from r obtain i where i: "i < length (rows queries)" and ri: "r = rows ?q ! i"
      using len by (auto simp: in_set_conv_nth length_rows_set_columns)
    have "vals ! i \<in> set vals" using i len by simp
    with all_match_vals_ok[OF f Inr]
    have v: "length (vals ! i) = length (map name targets)"
      "list_all (\<lambda>v. v \<noteq> None) (vals ! i)"
      by (auto simp: list_all_iff)
    have "r = set_row (map name targets) (vals ! i)
                (rows (add_columns queries (map name targets)) ! i)"
      using ri rows_set_columns[OF assms len i] by simp
    then show "r (name t) \<noteq> None"
      using set_row_present[OF v, of "name t"] t by simp
  qed
  show ?thesis
    unfolding res
    using len filled columns_set_columns[of "map name targets" queries vals]
    by (simp add: length_rows_set_columns)
qed

theorem table_resolution_all_or_nothing_witness:
  "distinct (map name [Yield TargetMode_MAX])
   \<and> rows ex_lookup \<noteq> []
   \<and> list_all (\<lambda>r. r ''Yield'' \<noteq> None) (rows ex_lookup)
   \<and> fst (look_up_targets (\<lambda>q ts. (None, q)) ex_hit_miss [Yield TargetMode_MAX]
            (FrameLookup ex_lookup) ''best'' (\<lambda>_. 0)) = None
   \<and> list_all (\<lambda>r. r ''Yield'' \<noteq> None)
        (rows (snd (look_up_targets (\<lambda>q ts. (None, q)) ex_hit_miss [Yield TargetMode_MAX]
                      (FrameLookup ex_lookup) ''best'' (\<lambda>_. 0))))
   \<and> fst (look_up_targets (\<lambda>q ts. (None, q)) ex_hit_miss [Yield TargetMode_MAX]
            (FrameLookup ex_lookup) ''error'' (\<lambda>_. 0)) \<noteq> None
   \<and> snd (look_up_targets (\<lambda>q ts. (None, q)) ex_hit_miss [Yield TargetMode_MAX]
            (FrameLookup ex_lookup) ''error'' (\<lambda>_. 0)) = ex_hit_miss"
proof -
  let ?run = "look_up_targets (\<lambda>q ts. (None, q)) ex_hit_miss [Yield TargetMode_MAX]
                (FrameLookup ex_lookup)"
  have d: "distinct (map name [Yield TargetMode_MAX])"
    by simp
  have ne: "rows ex_lookup \<noteq> []"
    by (simp add: ex_lookup_def)
  have pr: "list_all (\<lambda>r. r ''Yield'' \<noteq> None) (rows ex_lookup)"
    by (simp add: ex_lookup_def series_of_def)
  have ok: "fst (?run ''best'' (\<lambda>_. 0)) = None"
    by (simp add: look_up_targets_def eval_defs)
  have bad: "fst (?run ''error'' (\<lambda>_. 0)) \<noteq> None"
    by (simp add: look_up_targets_def eval_defs)
  from table_resolution_all_or_nothing[OF d, where add_fake_results = "\<lambda>q ts. (None, q)"
      and queries = ex_hit_miss and lookup = ex_lookup
      and impute_mode = "''best''" and g = "\<lambda>_. 0"] ok ne pr
  have "list_all (\<lambda>r. r ''Yield'' \<noteq> None) (rows (snd (?run ''best'' (\<lambda>_. 0))))"
    by (cases "?run ''best'' (\<lambda>_. 0)") (auto simp: list_all_iff Yield_def)
  moreover
  from table_resolution_all_or_nothing[OF d, where add_fake_results = "\<lambda>q ts. (None, q)"
      and queries = ex_hit_miss and lookup = ex_lookup
      and impute_mode = "''error''" and g = "\<lambda>_. 0"] bad
  have "snd (?run ''error'' (\<lambda>_. 0)) = ex_hit_miss"
    by (cases "?run ''error'' (\<lambda>_. 0)") auto
  ultimately show ?thesis
    using d ne pr ok bad by simp
qed

text \<open>
  The claim as stated fails, in both of its halves. The table's only row matches the
  query and holds no value for the target: the call returns, and the query row's target
  is missing. And with two targets of the name \<open>Yield\<close> the call raises a \<open>ValueError\<close>
  in its final assignment, when the queries have already gained two columns \<open>Yield\<close>.
\<close>

theorem missing_table_value_is_copied:
  "fst (look_up_targets (\<lambda>q ts. (None, q)) ex_query_T [Yield TargetMode_MAX]
          (FrameLookup ex_lookup_nan) ''error'' (\<lambda>_. 0)) = None
   \<and> (rows (snd (look_up_targets (\<lambda>q ts. (None, q)) ex_query_T [Yield TargetMode_MAX]
                    (FrameLookup ex_lookup_nan) ''error'' (\<lambda>_. 0))) ! 0) ''Yield'' = None
   \<and> fst (look_up_targets (\<lambda>q ts. (None, q)) ex_hit [Yield TargetMode_MAX, Yield TargetMode_MIN]
          (FrameLookup ex_lookup) ''error'' (\<lambda>_. 0)) = Some ValueError
   \<and> columns (snd (look_up_targets (\<lambda>q ts. (None, q)) ex_hit
                     [Yield TargetMode_MAX, Yield TargetMode_MIN]
                     (FrameLookup ex_lookup) ''error'' (\<lambda>_. 0)))
       = [''T'', ''flow'', ''Yield'', ''Yield'']
   \<and> columns ex_hit = [''T'', ''flow'']"
  by (simp add: look_up_targets_def eval_defs)

subsection \<open>Rows without a match\<close>

text \<open>
  The three theorems of this subsection are about tables that have a column for every
  column of the queries and for every target name (as a reference table does: it holds
  the parameters and the targets); without such a column the table access itself raises
  a \<open>KeyError\<close>. The exception the spec calls \<open>InvariantViolation\<close> is the
  \<open>AssertionError\<close> of the mode \<open>ignore\<close>, its \<open>LookupMissError\<close> is the
  \<open>IndexError\<close> of \<open>_impute_lookup\<close>, and its \<open>ConfigurationError\<close> is the
  \<open>AssertionError\<close> of a function lookup with the wrong number of values.
\<close>

text \<open>
  C4. With the impute mode \<open>ignore\<close>, if some query row has no matching row in the
  reference table, the call raises the \<open>AssertionError\<close> of that mode: nothing is
  imputed, the row is not skipped, and the queries are left as they were.
\<close>

theorem ignore_mode_unmatched_row_raises:
  assumes "set (columns queries) \<subseteq> set (columns lookup)"
    and "set (map name targets) \<subseteq> set (columns lookup)"
    and "r \<in> set (rows queries)"
    and "match_ind lookup (columns queries) r = []"
  shows "look_up_targets add_fake_results queries targets (FrameLookup lookup) ''ignore'' g
           = (Some (AssertionError msg_ignore), queries)"
proof -
  from assms(3,4) obtain r0
    where f: "find (\<lambda>r. match_ind lookup (columns queries) r = []) (rows queries) = Some r0"
    by (cases "find (\<lambda>r. match_ind lookup (columns queries) r = []) (rows queries)")
      (auto simp: find_None_iff)
  then have "match_ind lookup (columns queries) r0 = []" by (rule find_unmatched)
  then have "\<And>g. match_vals lookup targets ''ignore'' (columns queries) r0 g
                 = Inl (AssertionError msg_ignore)"
    using assms(1) by (simp add: unmatched_ignore)
  from first_unmatched_raises[OF assms(1,2) f this]
  show ?thesis
    by (simp add: look_up_targets_def lookup_targets_from_dataframe_def)
qed

theorem ignore_mode_unmatched_row_raises_witness:
  "set (columns ex_hit_miss) \<subseteq> set (columns ex_lookup)
   \<and> set (map name [Yield TargetMode_MAX]) \<subseteq> set (columns ex_lookup)
   \<and> rows ex_hit_miss ! 1 \<in> set (rows ex_hit_miss)
   \<and> match_ind ex_lookup (columns ex_hit_miss) (rows ex_hit_miss ! 1) = []
   \<and> look_up_targets (\<lambda>q ts. (None, q)) ex_hit_miss [Yield TargetMode_MAX]
         (FrameLookup ex_lookup) ''ignore'' (\<lambda>_. 0)
       = (Some (AssertionError msg_ignore), ex_hit_miss)"
proof -
  have cs: "set (columns ex_hit_miss) \<subseteq> set (columns ex_lookup)"
    by (simp add: ex_hit_miss_def ex_lookup_def)
  have ts: "set (map name [Yield TargetMode_MAX]) \<subseteq> set (columns ex_lookup)"
    by (simp add: Yield_def ex_lookup_def)
  have r: "rows ex_hit_miss ! 1 \<in> set (rows ex_hit_miss)"
    by (simp add: ex_hit_miss_def)
  have un: "match_ind ex_lookup (columns ex_hit_miss) (rows ex_hit_miss ! 1) = []"
    by (simp add: eval_defs)
  show ?thesis
    using cs ts r un ignore_mode_unmatched_row_raises[OF cs ts r un] by simp
qed

text \<open>
  C5. With the impute mode \<open>error\<close>, if some query row has no matching row in the
  reference table, the call raises the \<open>IndexError\<close> whose message holds the first such
  row, and the queries are left as they were: no target column is written, for the
  unmatched row or for any other.
\<close>

theorem error_mode_unmatched_row_raises:
  assumes "set (columns queries) \<subseteq> set (columns lookup)"
    and "set (map name targets) \<subseteq> set (columns lookup)"
    and "find (\<lambda>r. match_ind lookup (columns queries) r = []) (rows queries) = Some r"
  shows "look_up_targets add_fake_results queries targets (FrameLookup lookup) ''error'' g
           = (Some (IndexError (map (\<lambda>c. (c, r c)) (columns queries))), queries)"
proof -
  from assms(3) have "match_ind lookup (columns queries) r = []" by (rule find_unmatched)
  then have "\<And>g. match_vals lookup targets ''error'' (columns queries) r g
                 = Inl (IndexError (map (\<lambda>c. (c, r c)) (columns queries)))"
    using assms(1) by (simp add: unmatched_unrecognised)
  from first_unmatched_raises[OF assms(1,2,3) this]
  show ?thesis
    by (simp add: look_up_targets_def lookup_targets_from_dataframe_def)
qed

theorem error_mode_unmatched_row_raises_witness:
  "set (columns ex_hit_miss) \<subseteq> set (columns ex_lookup)
   \<and> set (map name [Yield TargetMode_MAX]) \<subseteq> set (columns ex_lookup)
   \<and> find (\<lambda>r. match_ind ex_lookup (columns ex_hit_miss) r = []) (rows ex_hit_miss)
       = Some (rows ex_hit_miss ! 1)
   \<and> look_up_targets (\<lambda>q ts. (None, q)) ex_hit_miss [Yield TargetMode_MAX]
         (FrameLookup ex_lookup) ''error'' (\<lambda>_. 0)
       = (Some (IndexError [(''T'', Some 50), (''flow'', Some 50)]), ex_hit_miss)"
proof -
  have cs: "set (columns ex_hit_miss) \<subseteq> set (columns ex_lookup)"
    by (simp add: ex_hit_miss_def ex_lookup_def)
  have ts: "set (map name [Yield TargetMode_MAX]) \<subseteq> set (columns ex_lookup)"
    by (simp add: Yield_def ex_lookup_def)
  have f: "find (\<lambda>r. match_ind ex_lookup (columns ex_hit_miss) r = []) (rows ex_hit_miss)
             = Some (rows ex_hit_miss ! 1)"
    by (simp add: eval_defs)
  have "map (\<lambda>c. (c, (rows ex_hit_miss ! 1) c)) (columns ex_hit_miss)
          = [(''T'', Some 50), (''flow'', Some 50)]"
    by (simp add: ex_hit_miss_def series_of_def)
  then show ?thesis
    using cs ts f error_mode_unmatched_row_raises[OF cs ts f] by simp
qed

text \<open>
  C6, as amended. With an impute mode that is none of the six recognised strings, if
  some query row has no matching row in the reference table, the call raises at the
  imputation step the same \<open>IndexError\<close> as the mode \<open>error\<close> does, holding the
  first unmatched row: the last branch of \<open>_impute_lookup\<close> takes every string that is
  not \<open>mean\<close>, \<open>worst\<close>, \<open>best\<close> or \<open>random\<close>. The queries are left as they were.
\<close>

theorem unrecognised_mode_raises_lookup_miss:
  assumes "set (columns queries) \<subseteq> set (columns lookup)"
    and "set (map name targets) \<subseteq> set (columns lookup)"
    and "find (\<lambda>r. match_ind lookup (columns queries) r = []) (rows queries) = Some r"
    and "impute_mode \<notin> {''error'', ''worst'', ''best'', ''mean'', ''random'', ''ignore''}"
  shows "look_up_targets add_fake_results queries targets (FrameLookup lookup) impute_mode g
           = (Some (IndexError (map (\<lambda>c. (c, r c)) (columns queries))), queries)
         \<and> look_up_targets add_fake_results queries targets (FrameLookup lookup) impute_mode g
           = look_up_targets add_fake_results queries targets (FrameLookup lookup) ''error'' g"
proof -
  from assms(3) have un: "match_ind lookup (columns queries) r = []" by (rule find_unmatched)
  have "\<And>g. match_vals lookup targets impute_mode (columns queries) r g
                 = Inl (IndexError (map (\<lambda>c. (c, r c)) (columns queries)))"
    using assms(1,4) un by (simp add: unmatched_unrecognised)
  from first_unmatched_raises[OF assms(1,2,3) this]
  have a: "look_up_targets add_fake_results queries targets (FrameLookup lookup) impute_mode g
           = (Some (IndexError (map (\<lambda>c. (c, r c)) (columns queries))), queries)"
    by (simp add: look_up_targets_def lookup_targets_from_dataframe_def)
  have "\<And>g. match_vals lookup targets ''error'' (columns queries) r g
                 = Inl (IndexError (map (\<lambda>c. (c, r c)) (columns queries)))"
    using assms(1) un by (simp add: unmatched_unrecognised)
  from first_unmatched_raises[OF assms(1,2,3) this]
  have "look_up_targets add_fake_results queries targets (FrameLookup lookup) ''error'' g
           = (Some (IndexError (map (\<lambda>c. (c, r c)) (columns queries))), queries)"
    by (simp add: look_up_targets_def lookup_targets_from_dataframe_def)
  with a show ?thesis by simp
qed

theorem unrecognised_mode_raises_lookup_miss_witness:
  "set (columns ex_hit_miss) \<subseteq> set (columns ex_lookup)
   \<and> set (map name [Yield TargetMode_MAX]) \<subseteq> set (columns ex_lookup)
   \<and> find (\<lambda>r. match_ind ex_lookup (columns ex_hit_miss) r = []) (rows ex_hit_miss)
       = Some (rows ex_hit_miss ! 1)
   \<and> ''nearest'' \<notin> {''error'', ''worst'', ''best'', ''mean'', ''random'', ''ignore''}
   \<and> look_up_targets (\<lambda>q ts. (None, q)) ex_hit_miss [Yield TargetMode_MAX]
         (FrameLookup ex_lookup) ''nearest'' (\<lambda>_. 0)
       = (Some (IndexError [(''T'', Some 50), (''flow'', Some 50)]), ex_hit_miss)"
proof -
  have cs: "set (columns ex_hit_miss) \<subseteq> set (columns ex_lookup)"
    by (simp add: ex_hit_miss_def ex_lookup_def)
  have ts: "set (map name [Yield TargetMode_MAX]) \<subseteq> set (columns ex_lookup)"
    by (simp add: Yield_def ex_lookup_def)
  have f: "find (\<lambda>r. match_ind ex_lookup (columns ex_hit_miss) r = []) (rows ex_hit_miss)
             = Some (rows ex_hit_miss ! 1)"
    by (simp add: eval_defs)
  have m: "''nearest'' \<notin> {''error'', ''worst'', ''best'', ''mean'', ''random'', ''ignore''}"
    by simp
  have "map (\<lambda>c. (c, (rows ex_hit_miss ! 1) c)) (columns ex_hit_miss)
          = [(''T'', Some 50), (''flow'', Some 50)]"
    by (simp add: ex_hit_miss_def series_of_def)
  then show ?thesis
    using cs ts f m unrecognised_mode_raises_lookup_miss[OF cs ts f m] by simp
qed

text \<open>
  The claim as stated fails: for the mode string \<open>nearest\<close> and an unmatched query the
  exception is the \<open>IndexError\<close> of a lookup miss, not the \<open>AssertionError\<close> that a
  function lookup with the wrong number of values raises.
\<close>

theorem unrecognised_mode_is_no_configuration_error:
  "fst (look_up_targets (\<lambda>q ts. (None, q)) ex_miss [Yield TargetMode_MAX]
          (FrameLookup ex_lookup) ''nearest'' (\<lambda>_. 0))
     = Some (IndexError [(''T'', Some 50), (''flow'', Some 50)])
   \<and> fst (look_up_targets (\<lambda>q ts. (None, q)) ex_miss [Yield TargetMode_MAX]
          (FrameLookup ex_lookup) ''nearest'' (\<lambda>_. 0))
     \<noteq> Some (AssertionError msg_target_count)
   \<and> fst (lookup_targets_from_callable ex_miss [Yield TargetMode_MAX] (\<lambda>xs. [Some 1, Some 2]))
     = Some (AssertionError msg_target_count)"
  by (simp add: look_up_targets_def eval_defs)

subsection \<open>Imputation by the mean\<close>

text \<open>
  C7. Under the mode \<open>mean\<close>, the imputed value of every target is the arithmetic mean
  of the target's column over all rows of the reference table: the sum of the column
  divided by the number of rows. The right-hand side mentions neither the query row nor
  the mode or the centre of the target. The table is taken to have at least one row and a
  value in every cell of the target columns, so that the mean of the whole column exists
  (pandas skips missing cells, and gives the missing value for a column without values).
\<close>

theorem mean_imputation_is_column_mean:
  assumes "set (map name targets) \<subseteq> set (columns lookup)"
    and "rows lookup \<noteq> []"
    and "\<forall>r \<in> set (rows lookup). \<forall>t \<in> set targets. r (name t) \<noteq> None"
  shows "impute_lookup row lookup targets ''mean'' g
           = Inr (map (\<lambda>t. Some (sum_list (map (\<lambda>r. the (r (name t))) (rows lookup))
                                   / real (length (rows lookup)))) targets, g)"
proof -
  have "series_mean (map (\<lambda>r. r (name t)) (rows lookup))
          = Some (sum_list (map (\<lambda>r. the (r (name t))) (rows lookup)) / real (length (rows lookup)))"
    if "t \<in> set targets" for t
    using series_mean_full[of "map (\<lambda>r. r (name t)) (rows lookup)"] assms(2,3) that
    by (simp add: list_all_iff comp_def)
  then show ?thesis
    using assms(1) by (simp add: impute_lookup_def comp_def)
qed

theorem mean_imputation_is_column_mean_witness:
  "set (map name [Yield TargetMode_MATCH]) \<subseteq> set (columns ex_lookup)
   \<and> rows ex_lookup \<noteq> []
   \<and> list_all (\<lambda>r. r ''Yield'' \<noteq> None) (rows ex_lookup)
   \<and> map_sum id fst (impute_lookup [] ex_lookup [Yield TargetMode_MATCH] ''mean'' (\<lambda>_. 0))
       = Inr [Some 70]"
proof -
  have ts: "set (map name [Yield TargetMode_MATCH]) \<subseteq> set (columns ex_lookup)"
    by (simp add: Yield_def ex_lookup_def)
  have ne: "rows ex_lookup \<noteq> []"
    by (simp add: ex_lookup_def)
  have pr: "\<forall>r \<in> set (rows ex_lookup). \<forall>t \<in> set [Yield TargetMode_MATCH]. r (name t) \<noteq> None"
    by (simp add: ex_lookup_def Yield_def series_of_def)
  have "map_sum id fst (impute_lookup [] ex_lookup [Yield TargetMode_MATCH] ''mean'' (\<lambda>_. 0))
          = Inr [Some 70]"
    unfolding mean_imputation_is_column_mean[OF ts ne pr]
    by (simp add: ex_lookup_def Yield_def series_of_def)
  then show ?thesis
    using ts ne pr by (simp add: Yield_def list_all_iff)
qed

subsection \<open>Missing parameters\<close>

text \<open>
  C9. Two missing values are not equal; so a query row with a missing value in one of
  its parameter columns matches no row of the reference table, and is treated as any row
  without a match: unless a query column is absent from the table, the mode \<open>ignore\<close>
  raises and every other mode goes to \<open>_impute_lookup\<close>.
\<close>

theorem missing_parameter_never_matches:
  assumes "c \<in> set cs" and "row c = None"
  shows "\<not> cell_eq None None
         \<and> match_ind lookup cs row = []
         \<and> match_vals lookup targets impute_mode cs row g =
             (if \<not> set cs \<subseteq> set (columns lookup) then Inl KeyError
              else if impute_mode = ''ignore'' then Inl (AssertionError msg_ignore)
              else impute_lookup (map (\<lambda>c. (c, row c)) cs) lookup targets impute_mode g)"
proof -
  have "\<not> cell_eq a None" for a
    by (cases a) (simp_all add: cell_eq_def)
  then have "\<not> list_all (\<lambda>c. cell_eq ((rows lookup ! i) c) (row c)) cs" for i
    using assms by (metis list_all_iff)
  then have "match_ind lookup cs row = []"
    by (simp add: match_ind_def)
  then show ?thesis
    by (simp add: match_vals_def cell_eq_def)
qed

theorem missing_parameter_never_matches_witness:
  "''flow'' \<in> set [''T'', ''flow''] \<and> ex_unset ''flow'' = None
   \<and> match_ind ex_lookup [''T'', ''flow''] ex_unset = []
   \<and> match_ind ex_lookup [''T''] ex_unset = [0]"
proof -
  have c: "''flow'' \<in> set [''T'', ''flow'']" by simp
  have n: "ex_unset ''flow'' = None" by (simp add: ex_unset_def series_of_def)
  have "match_ind ex_lookup [''T''] ex_unset = [0]"
    by (simp add: eval_defs)
  then show ?thesis
    using c n missing_parameter_never_matches[where c = "''flow''" and cs = "[''T'', ''flow'']"
        and row = ex_unset and lookup = ex_lookup, OF c n] by simp
qed

subsection \<open>Other lookup objects\<close>

text \<open>
  C10. When \<open>lookup\<close> is neither \<open>None\<close>, nor a function, nor a data frame, no branch of
  \<open>look_up_targets\<close> is taken: it returns without an exception and the queries are
  left as they were.
\<close>

theorem other_lookup_leaves_queries_unchanged:
  "look_up_targets add_fake_results queries targets OtherLookup impute_mode g = (None, queries)"
  by (simp add: look_up_targets_def)

subsection \<open>Function lookups\<close>

text \<open>
  When the function returns the same number \<open>k\<close> of values for every row, with
  \<open>k\<close> at least 1 and different from the number of targets, the call raises the
  \<open>AssertionError\<close> of the target count, and the queries are left as they were: the
  check comes before the loop that assigns the columns.
\<close>

theorem wrong_number_of_values_raises:
  assumes "rows queries \<noteq> []"
    and "\<forall>r \<in> set (rows queries). length (lookup (map r (columns queries))) = k"
    and "1 \<le> k" and "k \<noteq> length targets"
  shows "look_up_targets add_fake_results queries targets (CallableLookup lookup) impute_mode g
           = (Some (AssertionError msg_target_count), queries)"
  using shape1_measured_targets[OF assms(1,2)] assms(1,3,4)
  by (simp add: look_up_targets_def lookup_targets_from_callable_def)

theorem wrong_number_of_values_raises_witness:
  "rows ex_miss \<noteq> []
   \<and> list_all (\<lambda>r. length ((\<lambda>xs. [Some 1, Some 2] :: cell list) (map r (columns ex_miss))) = 2)
        (rows ex_miss)
   \<and> (1::nat) \<le> 2 \<and> 2 \<noteq> length [Yield TargetMode_MAX]
   \<and> look_up_targets (\<lambda>q ts. (None, q)) ex_miss [Yield TargetMode_MAX]
         (CallableLookup (\<lambda>xs. [Some 1, Some 2])) ''error'' (\<lambda>_. 0)
       = (Some (AssertionError msg_target_count), ex_miss)"
proof -
  have ne: "rows ex_miss \<noteq> []" by (simp add: ex_miss_def)
  have k: "\<forall>r \<in> set (rows ex_miss).
             length ((\<lambda>xs. [Some 1, Some 2] :: cell list) (map r (columns ex_miss))) = 2"
    by simp
  have one: "(1::nat) \<le> 2" by simp
  have two: "2 \<noteq> length [Yield TargetMode_MAX]" by simp
  show ?thesis
    using ne one two wrong_number_of_values_raises[OF ne k one two]
    by (simp add: list_all_iff)
qed

text \<open>
  C3. The claim is that a function returning \<open>k\<close> values per row, with \<open>k\<close> different
  from the number of targets, makes the resolution fail before any column is written.
  The check of the module counts the columns of \<open>measured_targets\<close>, which still holds
  its first column of tuples when the tuples have no entries. So for \<open>k = 0\<close> and one
  target the check passes: the call returns without an exception and has written the
  column of the target.
\<close>

theorem empty_tuples_pass_target_count_check:
  "fst (look_up_targets (\<lambda>q ts. (None, q)) ex_hit [Yield TargetMode_MAX]
          (CallableLookup (\<lambda>xs. [])) ''error'' (\<lambda>_. 0)) = None
   \<and> length ([] :: cell list) \<noteq> length [Yield TargetMode_MAX]
   \<and> columns (snd (look_up_targets (\<lambda>q ts. (None, q)) ex_hit [Yield TargetMode_MAX]
          (CallableLookup (\<lambda>xs. [])) ''error'' (\<lambda>_. 0))) = [''T'', ''flow'', ''Yield'']"
  by (simp add: look_up_targets_def eval_defs)

subsection \<open>Imputation by the best value\<close>

text \<open>
  For targets of the modes \<open>MAX\<close> and \<open>MIN\<close>, and a table with at least one row and a
  value in every cell of the target columns, the mode \<open>best\<close> gives the maximum of the
  column for a \<open>MAX\<close> target and its minimum for a \<open>MIN\<close> target.
\<close>

theorem best_of_max_min_targets:
  assumes "set (map name targets) \<subseteq> set (columns lookup)"
    and "rows lookup \<noteq> []"
    and "\<forall>r \<in> set (rows lookup). \<forall>t \<in> set targets. r (name t) \<noteq> None"
    and "\<forall>t \<in> set targets. mode t \<noteq> TargetMode_MATCH"
  shows "impute_lookup row lookup targets ''best'' g
           = Inr (map (\<lambda>t. if mode t = TargetMode_MAX
                            then Some (Max ((\<lambda>r. the (r (name t))) ` set (rows lookup)))
                            else Some (Min ((\<lambda>r. the (r (name t))) ` set (rows lookup))))
                    targets, g)"
proof -
  let ?h = "\<lambda>t. [if mode t = TargetMode_MAX
                   then Some (Max ((\<lambda>r. the (r (name t))) ` set (rows lookup)))
                   else Some (Min ((\<lambda>r. the (r (name t))) ` set (rows lookup)))]"
  have "best_vals lookup t = Inr (?h t)" if t: "t \<in> set targets" for t
  proof -
    let ?c = "map (\<lambda>r. r (name t)) (rows lookup)"
    have c: "?c \<noteq> []" "list_all (\<lambda>c. c \<noteq> None) ?c"
      using assms(2,3) t by (auto simp: list_all_iff)
    have img: "set (map the ?c) = (\<lambda>r. the (r (name t))) ` set (rows lookup)"
      by auto
    have n: "name t \<in> set (columns lookup)" using assms(1) t by auto
    have m: "mode t \<noteq> TargetMode_MATCH" using assms(4) t by simp
    show ?thesis
      using series_max_Max[OF c] series_min_Min[OF c] n m assms(2)
      unfolding img
      by (cases "mode t") (simp_all add: best_vals_def flatten0_def col_def)
  qed
  then have "collect (best_vals lookup) targets = Inr (map ?h targets)"
    by (rule collect_all_ok)
  then show ?thesis
    by (simp add: impute_lookup_def comp_def concat_map_singleton)
qed

theorem best_of_max_min_targets_witness:
  "set (map name [Yield TargetMode_MAX, Yield TargetMode_MIN]) \<subseteq> set (columns ex_lookup)
   \<and> rows ex_lookup \<noteq> []
   \<and> list_all (\<lambda>r. r ''Yield'' \<noteq> None) (rows ex_lookup)
   \<and> map_sum id fst
        (impute_lookup [] ex_lookup [Yield TargetMode_MAX, Yield TargetMode_MIN] ''best'' (\<lambda>_. 0))
       = Inr [Some 90, Some 50]"
proof -
  let ?T = "[Yield TargetMode_MAX, Yield TargetMode_MIN]"
  have ts: "set (map name ?T) \<subseteq> set (columns ex_lookup)"
    by (simp add: Yield_def ex_lookup_def)
  have ne: "rows ex_lookup \<noteq> []"
    by (simp add: ex_lookup_def)
  have pr: "\<forall>r \<in> set (rows ex_lookup). \<forall>t \<in> set ?T. r (name t) \<noteq> None"
    by (simp add: ex_lookup_def Yield_def series_of_def)
  have md: "\<forall>t \<in> set ?T. mode t \<noteq> TargetMode_MATCH"
    by (simp add: Yield_def)
  have "map_sum id fst (impute_lookup [] ex_lookup ?T ''best'' (\<lambda>_. 0)) = Inr [Some 90, Some 50]"
    unfolding best_of_max_min_targets[OF ts ne pr md]
    by (simp add: ex_lookup_def Yield_def series_of_def)
  then show ?thesis
    using ts ne pr by (simp add: Yield_def list_all_iff)
qed

text \<open>
  A \<open>MATCH\<close> target is never imputed under the modes \<open>best\<close> and \<open>worst\<close>: whatever
  the table, the imputation raises.
\<close>

theorem match_target_never_imputed:
  assumes "t \<in> set targets" and "mode t = TargetMode_MATCH" and "md = ''best'' \<or> md = ''worst''"
  shows "\<exists>e. impute_lookup row lookup targets md g = Inl e"
proof -
  obtain e1 where e1: "match_val idxmin lookup t = Inl e1"
    using match_val_fails by blast
  obtain e2 where e2: "match_val idxmax lookup t = Inl e2"
    using match_val_fails by blast
  have "best_vals lookup t = Inl e1"
    using assms(2) e1 by (simp add: best_vals_def)
  from collect_fails[where f = "best_vals lookup", OF assms(1) this]
  obtain b where b: "collect (best_vals lookup) targets = Inl b" by blast
  have "worst_vals lookup t = Inl e2"
    using assms(2) e2 by (simp add: worst_vals_def)
  from collect_fails[where f = "worst_vals lookup", OF assms(1) this]
  obtain w where w: "collect (worst_vals lookup) targets = Inl w" by blast
  show ?thesis
    using assms(3) b w by (auto simp: impute_lookup_def)
qed

theorem match_target_never_imputed_witness:
  "Yield TargetMode_MATCH \<in> set [Yield TargetMode_MATCH]
   \<and> mode (Yield TargetMode_MATCH) = TargetMode_MATCH
   \<and> (\<exists>e. impute_lookup [] ex_lookup [Yield TargetMode_MATCH] ''worst'' (\<lambda>_. 0) = Inl e)"
proof -
  have t: "Yield TargetMode_MATCH \<in> set [Yield TargetMode_MATCH]" by simp
  have m: "mode (Yield TargetMode_MATCH) = TargetMode_MATCH" by (simp add: Yield_def)
  have md: "''worst'' = ''best'' \<or> ''worst'' = ''worst''" by simp
  show ?thesis
    using t m match_target_never_imputed[OF t m md] by simp
qed

text \<open>
  C8. The claim is that the mode \<open>best\<close> gives the column's maximum for a \<open>MAX\<close>
  target, its minimum for a \<open>MIN\<close> target, and for a \<open>MATCH\<close> target the table value
  closest to the centre of the target's interval, the first such row winning a tie. For
  \<open>MAX\<close> and \<open>MIN\<close> this is what the module computes (the theorem above). For
  \<open>MATCH\<close> the module finds the row (here row 0, whose \<open>Yield\<close> of 50 is closest to the
  centre 60), and then uses the cells of that row as row labels: with the table of the
  example the call raises a \<open>KeyError\<close> instead of giving 50.
\<close>

theorem best_of_match_target_raises:
  "look_up_targets (\<lambda>q ts. (None, q)) ex_miss [Yield TargetMode_MATCH]
     (FrameLookup ex_lookup) ''best'' (\<lambda>_. 0) = (Some KeyError, ex_miss)
   \<and> idxmin (map (map_option (\<lambda>x. \<bar>x - center (Yield TargetMode_MATCH)\<bar>))
        (map (\<lambda>r. r ''Yield'') (rows ex_lookup))) = Inr (Some 0)
   \<and> (rows ex_lookup ! 0) ''Yield'' = Some 50"
  by (simp add: look_up_targets_def eval_defs)

subsection \<open>Imputation by a random row\<close>

text \<open>
  Under the mode \<open>random\<close> one row of the table is drawn, and the values of all targets
  are the cells of that one row.
\<close>

theorem random_imputation_takes_one_row:
  assumes "set (map name targets) \<subseteq> set (columns lookup)" and "rows lookup \<noteq> []"
  shows "g 0 mod length (rows lookup) < length (rows lookup)
         \<and> map_sum id fst (impute_lookup row lookup targets ''random'' g)
             = Inr (map (\<lambda>t. (rows lookup ! (g 0 mod length (rows lookup))) (name t)) targets)"
proof -
  let ?i = "g 0 mod length (rows lookup)"
  have i: "?i < length (rows lookup)" using assms(2) by simp
  have c: "choice g [0..<length (rows lookup)] = Inr (?i, \<lambda>n. g (Suc n))"
    using assms(2) i by (simp add: choice_def)
  have "collect (\<lambda>t. loc_cell lookup ?i (name t)) targets
          = Inr (map (\<lambda>t. (rows lookup ! ?i) (name t)) targets)"
    using assms(1) i by (intro collect_all_ok) (auto simp: loc_cell_def)
  then show ?thesis
    using c i by (simp add: impute_lookup_def)
qed

theorem random_imputation_takes_one_row_witness:
  "set (map name [Yield TargetMode_MAX]) \<subseteq> set (columns ex_lookup) \<and> rows ex_lookup \<noteq> []
   \<and> map_sum id fst (impute_lookup [] ex_lookup [Yield TargetMode_MAX] ''random'' (\<lambda>_. 3))
       = Inr [Some 90]"
proof -
  have ts: "set (map name [Yield TargetMode_MAX]) \<subseteq> set (columns ex_lookup)"
    by (simp add: Yield_def ex_lookup_def)
  have ne: "rows ex_lookup \<noteq> []"
    by (simp add: ex_lookup_def)
  have len: "length (rows ex_lookup) = 2"
    by (simp add: ex_lookup_def)
  have "(rows ex_lookup ! 1) ''Yield'' = Some 90"
    by (simp add: ex_lookup_def series_of_def)
  with random_imputation_takes_one_row[OF ts ne, of "\<lambda>_. 3" "[]"]
  have "map_sum id fst (impute_lookup [] ex_lookup [Yield TargetMode_MAX] ''random'' (\<lambda>_. 3))
          = Inr [Some 90]"
    unfolding len by (simp add: Yield_def)
  then show ?thesis using ts ne by simp
qed

end
